theory Spec2Isabelle
  imports Main
begin

section \<open>Data model of \<open>src/index.js\<close>\<close>

text \<open>
  The module keeps three pieces of process-wide state: the \<open>asyncResources\<close> map, the
  enabled flag of the hook it creates, and (transiently) the global
  \<open>Error.prepareStackTrace\<close> slot.  JavaScript values are modelled only as far as the
  module looks at them.
\<close>

datatype js_error = TypeError | RangeError | HostError

datatype js_value = Undefined | Null | Boolean bool | Number int | String string | Object

text \<open>
  What \<open>getFileName()\<close> of a V8 call site yields: the name of the script, \<open>null\<close>, or
  \<open>undefined\<close> (code that has no script name, as in \<open>eval\<close> or \<open>new Function\<close>).
\<close>

datatype file_name = Undefined_name | Null_name | Name string

text \<open>A call frame as the module stores it (\<open>prepareStackTrace\<close>, lines 103-108).\<close>

record stack_frame =
  lineNumber :: int
  fileName :: file_name

text \<open>A V8 call site, of which the module reads two getters.\<close>

record call_site =
  getLineNumber :: int
  getFileName :: file_name

text \<open>
  Resource objects live in the host's heap; the module only ever holds a \<open>WeakRef\<close> to
  one, modelled as the object's address.  \<open>deref\<close> looks the address up in the heap as it
  is at inspection time: \<open>None\<close> is a collected object (\<open>deref()\<close> gives \<open>undefined\<close>).
  Of a resource the module reads the member \<open>hasRef\<close> only: \<open>None\<close> when the member is
  \<open>undefined\<close> or \<open>null\<close> (so that \<open>?.\<close> short-circuits), \<open>Some v\<close> when it is a method
  whose call returns \<open>v\<close>.  The host's resources answer \<open>hasRef\<close> without raising; a
  member that is not callable, or whose call raises, is not modelled.
\<close>

type_synonym address = nat

record js_resource =
  hasRef :: "js_value option"

type_synonym heap = "address \<Rightarrow> js_resource option"

text \<open>The value stored under an id by \<open>init\<close> (lines 22-26).\<close>

record async_resource =
  type :: string
  resourceRef :: address
  stacks :: "stack_frame list"

text \<open>
  What may stand in \<open>Error.prepareStackTrace\<close>: nothing (\<open>undefined\<close>), some function
  installed by other code, or the module's own \<open>prepareStackTrace\<close>.
\<close>

datatype formatter = NoFormatter | OtherFormatter nat | ModuleFormatter

record state =
  hook_enabled :: bool
  asyncResources :: "(nat \<times> async_resource) list"
  Error_prepareStackTrace :: formatter

section \<open>The insertion-ordered \<open>Map\<close>\<close>

text \<open>
  A JavaScript \<open>Map\<close> iterates in insertion order; \<open>set\<close> on a present key replaces the
  value in place and on an absent key appends; \<open>delete\<close> removes the key if present.
\<close>

fun Map_set :: "'k \<Rightarrow> 'v \<Rightarrow> ('k \<times> 'v) list \<Rightarrow> ('k \<times> 'v) list" where
  "Map_set k v [] = [(k, v)]"
| "Map_set k v ((k', v') # m) = (if k' = k then (k, v) # m else (k', v') # Map_set k v m)"

definition Map_delete :: "'k \<Rightarrow> ('k \<times> 'v) list \<Rightarrow> ('k \<times> 'v) list" where
  "Map_delete k m = filter (\<lambda>e. fst e \<noteq> k) m"


definition Map_keys :: "('k \<times> 'v) list \<Rightarrow> 'k set" where
  "Map_keys m = fst ` set m"

section \<open>The stack capturer\<close>

definition IGNORED_TYPES :: "string list" where
  "IGNORED_TYPES = [''TIMERWRAP'', ''PROMISE'', ''PerformanceObserver'', ''RANDOMBYTESREQUEST'']"

definition prepareStackTrace :: "call_site list \<Rightarrow> stack_frame list" where
  "prepareStackTrace stackTraces =
     map (\<lambda>stack. \<lparr>lineNumber = getLineNumber stack, fileName = getFileName stack\<rparr>) stackTraces"

text \<open>
  The host's capture primitive is not part of the module.  What one call of
  \<open>Error.captureStackTrace(target, captureStackTraces)\<close> followed by the read of
  \<open>target.stack\<close> does is given from outside, once per call: it raises; or the host
  records no trace and \<open>target.stack\<close> stays \<open>undefined\<close>; or it hands the call sites
  above \<open>captureStackTraces\<close>, innermost first, to the installed formatter, whose result
  becomes \<open>target.stack\<close>.
\<close>

datatype capture = CaptureRaises | NoTrace | CallSites "call_site list"

datatype stack_value = UndefinedStack | FrameArray "stack_frame list"

fun capture_and_read :: "capture \<Rightarrow> js_error + stack_value" where
  "capture_and_read CaptureRaises = Inl HostError"
| "capture_and_read NoTrace = Inr UndefinedStack"
| "capture_and_read (CallSites cs) = Inr (FrameArray (prepareStackTrace cs))"

text \<open>
  \<open>captureStackTraces\<close> (lines 111-122).  A raise at lines 116-118 leaves the function at
  once, so the assignment of line 119 is not reached: the source has no \<open>finally\<close>.
\<close>

definition captureStackTraces :: "capture \<Rightarrow> state \<Rightarrow> state \<times> (js_error + stack_value)" where
  "captureStackTraces host s =
     (let original = Error_prepareStackTrace s;
          s1 = s\<lparr>Error_prepareStackTrace := ModuleFormatter\<rparr>
      in case capture_and_read host of
           Inl e \<Rightarrow> (s1, Inl e)
         | Inr capturedTraces \<Rightarrow> (s1\<lparr>Error_prepareStackTrace := original\<rparr>, Inr capturedTraces))"

section \<open>The lifecycle callbacks\<close>

text \<open>
  \<open>init\<close> (lines 15-27) and \<open>destroy\<close> (lines 28-30).  \<open>.slice(1)\<close> on \<open>undefined\<close> is a
  TypeError; on an array it drops the first element.  The host passes an object as
  \<open>resource\<close>, here its address, so \<open>new WeakRef\<close> does not raise.  The result pairs the
  new state with the error raised, if any.
\<close>

definition init :: "state \<Rightarrow> nat \<Rightarrow> string \<Rightarrow> nat \<Rightarrow> address \<Rightarrow> capture \<Rightarrow> state \<times> js_error option" where
  "init s asyncId ty triggerAsyncId resource host =
     (if ty \<in> set IGNORED_TYPES then (s, None)
      else case captureStackTraces host s of
             (s1, Inl e) \<Rightarrow> (s1, Some e)
           | (s1, Inr UndefinedStack) \<Rightarrow> (s1, Some TypeError)
           | (s1, Inr (FrameArray frames)) \<Rightarrow>
               (s1\<lparr>asyncResources :=
                     Map_set asyncId \<lparr>type = ty, resourceRef = resource, stacks = drop 1 frames\<rparr>
                       (asyncResources s1)\<rparr>, None))"

definition destroy :: "state \<Rightarrow> nat \<Rightarrow> state" where
  "destroy s asyncId = s\<lparr>asyncResources := Map_delete asyncId (asyncResources s)\<rparr>"

text \<open>
  The host delivers a notification to the callbacks only while the hook is enabled
  (\<open>hook.enable()\<close>, line 33, at load; \<open>hook.disable()\<close>, line 36).  An exception that
  leaves a callback ends the delivery.  At load the map is empty and the global
  formatter is whatever the process has installed.
\<close>

datatype notification = Init nat string nat address capture | Destroy nat

definition initial_state :: "formatter \<Rightarrow> state" where
  "initial_state f = \<lparr>hook_enabled = True, asyncResources = [], Error_prepareStackTrace = f\<rparr>"

fun notify :: "state \<Rightarrow> notification \<Rightarrow> state \<times> js_error option" where
  "notify s (Init asyncId ty triggerAsyncId resource host) =
     (if hook_enabled s then init s asyncId ty triggerAsyncId resource host else (s, None))"
| "notify s (Destroy asyncId) =
     (if hook_enabled s then (destroy s asyncId, None) else (s, None))"

fun deliver :: "state \<Rightarrow> notification list \<Rightarrow> state \<times> js_error option" where
  "deliver s [] = (s, None)"
| "deliver s (n # ns) =
     (case notify s n of
        (s1, Some e) \<Rightarrow> (s1, Some e)
      | (s1, None) \<Rightarrow> deliver s1 ns)"

section \<open>The liveness filter\<close>

definition deref :: "heap \<Rightarrow> address \<Rightarrow> js_resource option" where
  "deref h ref = h ref"

text \<open>\<open>ToBoolean\<close>, which \<open>Array.prototype.filter\<close> applies to the callback's result.\<close>

fun truthy :: "js_value \<Rightarrow> bool" where
  "truthy Undefined = False"
| "truthy Null = False"
| "truthy (Boolean b) = b"
| "truthy (Number n) = (n \<noteq> 0)"
| "truthy (String str) = (str \<noteq> [])"
| "truthy Object = True"

text \<open>\<open>m?.()\<close>: \<open>undefined\<close> when the member is nullish, the call's result otherwise.\<close>

definition optional_call :: "js_value option \<Rightarrow> js_value" where
  "optional_call m = (case m of None \<Rightarrow> Undefined | Some v \<Rightarrow> v)"

text \<open>\<open>a ?? b\<close>.\<close>

definition nullish_coalesce :: "js_value \<Rightarrow> js_value \<Rightarrow> js_value" where
  "nullish_coalesce a b = (if a = Undefined \<or> a = Null then b else a)"

text \<open>The callback of lines 39-47.\<close>

definition isActive :: "heap \<Rightarrow> async_resource \<Rightarrow> bool" where
  "isActive h r =
     (case deref h (resourceRef r) of
        None \<Rightarrow> False
      | Some resource \<Rightarrow> truthy (nullish_coalesce (optional_call (hasRef resource)) (Boolean True)))"

definition filterActive :: "heap \<Rightarrow> async_resource list \<Rightarrow> async_resource list" where
  "filterActive h rs = filter (isActive h) rs"


section \<open>Strings and numbers\<close>

definition startsWith :: "string \<Rightarrow> string \<Rightarrow> bool" where
  "startsWith str p = (take (length p) str = p)"

text \<open>Decimal rendering of an integer, as a template literal does it.\<close>

fun show_nat :: "nat \<Rightarrow> string" where
  "show_nat n =
     (if n < 10 then [''0123456789'' ! n]
      else show_nat (n div 10) @ [''0123456789'' ! (n mod 10)])"

declare show_nat.simps [simp del]

definition show_int :: "int \<Rightarrow> string" where
  "show_int i = (if i < 0 then ''-'' @ show_nat (nat (- i)) else show_nat (nat i))"

text \<open>
  \<open>split(/\n|\r\n/)\<close>: a line feed, or a carriage return followed by a line feed, ends a
  piece; a lone carriage return stays in its piece.  The result is never empty.
\<close>

definition LF :: char where
  "LF = CHR 0x0A"

definition CR :: char where
  "CR = CHR 0x0D"

fun split_lines :: "string \<Rightarrow> string list" where
  "split_lines [] = [[]]"
| "split_lines (c # cs) =
     (if c = LF then [] # split_lines cs
      else case cs of
             d # ds \<Rightarrow>
               if c = CR \<and> d = LF then [] # split_lines ds
               else (case split_lines cs of l # ls \<Rightarrow> (c # l) # ls | [] \<Rightarrow> [[c]])
           | [] \<Rightarrow> [[c]])"

text \<open>\<open>' '.repeat(count)\<close> raises a RangeError on a negative count.\<close>

definition repeat_space :: "int \<Rightarrow> js_error + string" where
  "repeat_space count = (if count < 0 then Inl RangeError else Inr (replicate (nat count) CHR '' ''))"

section \<open>The report renderer\<close>

text \<open>
  What the renderer asks of its surroundings, none of it part of the module: the working
  directory, \<open>path.relative\<close>, \<open>url.fileURLToPath\<close> (\<open>None\<close> when it raises, as it does on a
  \<open>file:\<close> URL it cannot turn into a path), \<open>fs.readFileSync(path, 'utf-8')\<close> (\<open>None\<close> for
  any raised I/O error) and \<open>String.prototype.trim\<close>.
\<close>

record env =
  cwd :: string
  relative :: "string \<Rightarrow> string \<Rightarrow> string"
  fileURLToPath :: "string \<Rightarrow> string option"
  readFileSync :: "string \<Rightarrow> string option"
  trim :: "string \<Rightarrow> string"

definition normalizeFilePath :: "env \<Rightarrow> string \<Rightarrow> js_error + string" where
  "normalizeFilePath e filePath =
     (if startsWith filePath ''file://''
      then (case fileURLToPath e filePath of None \<Rightarrow> Inl HostError | Some path \<Rightarrow> Inr path)
      else Inr filePath)"

definition formatFilePath :: "env \<Rightarrow> string \<Rightarrow> js_error + string" where
  "formatFilePath e filePath =
     (case normalizeFilePath e filePath of
        Inl err \<Rightarrow> Inl err
      | Inr absolutePath \<Rightarrow>
          (let relativePath = relative e (cwd e) absolutePath
           in Inr (if startsWith relativePath ''..'' then absolutePath else relativePath)))"

text \<open>
  On a file name that is \<open>null\<close> or \<open>undefined\<close>, \<open>filePath.startsWith\<close> is a TypeError.
\<close>

definition formatLocation :: "env \<Rightarrow> stack_frame \<Rightarrow> js_error + string" where
  "formatLocation e stack =
     (case fileName stack of
        Name f \<Rightarrow>
          (case formatFilePath e f of
             Inl err \<Rightarrow> Inl err
           | Inr filePath \<Rightarrow> Inr (filePath @ '':'' @ show_int (lineNumber stack)))
      | Null_name \<Rightarrow> Inl TypeError
      | Undefined_name \<Rightarrow> Inl TypeError)"

text \<open>
  The callback of lines 57-60, \<open>fileName !== null && !fileName.startsWith('node:')\<close>:
  \<open>undefined\<close> passes the first test and makes the second a TypeError.
\<close>

definition displayed :: "stack_frame \<Rightarrow> js_error + bool" where
  "displayed stack =
     (case fileName stack of
        Undefined_name \<Rightarrow> Inl TypeError
      | Null_name \<Rightarrow> Inr False
      | Name f \<Rightarrow> Inr (\<not> startsWith f ''node:''))"

text \<open>
  \<open>asyncResource.stacks.filter\<close> with that callback: the frames are tested in order, and an
  error raised by the callback leaves the filter.
\<close>

fun filter_displayed :: "stack_frame list \<Rightarrow> js_error + stack_frame list" where
  "filter_displayed [] = Inr []"
| "filter_displayed (stack # rest) =
     (case displayed stack of
        Inl err \<Rightarrow> Inl err
      | Inr keep \<Rightarrow>
          (case filter_displayed rest of
             Inl err \<Rightarrow> Inl err
           | Inr kept \<Rightarrow> Inr (if keep then stack # kept else kept)))"

text \<open>The \<open>reduce\<close> of line 70.\<close>

fun maxLength :: "env \<Rightarrow> stack_frame list \<Rightarrow> nat \<Rightarrow> js_error + nat" where
  "maxLength e [] len = Inr len"
| "maxLength e (stack # rest) len =
     (case formatLocation e stack of
        Inl err \<Rightarrow> Inl err
      | Inr location \<Rightarrow> maxLength e rest (max len (length location)))"

text \<open>
  Lines 77-78, the part of the \<open>try\<close> block that can raise: the conversion of the name,
  the read, and \<open>.trim()\<close> on \<open>undefined\<close> when the index is outside the array.
\<close>

definition sourceLine :: "env \<Rightarrow> stack_frame \<Rightarrow> js_error + string" where
  "sourceLine e stack =
     (case fileName stack of
        Name f \<Rightarrow>
          (case normalizeFilePath e f of
             Inl err \<Rightarrow> Inl err
           | Inr path \<Rightarrow>
               (case readFileSync e path of
                  None \<Rightarrow> Inl HostError
                | Some content \<Rightarrow>
                    (let lines = split_lines content; i = lineNumber stack - 1
                     in if 0 \<le> i \<and> nat i < length lines then Inr (trim e (lines ! nat i))
                        else Inl TypeError)))
      | Null_name \<Rightarrow> Inl TypeError
      | Undefined_name \<Rightarrow> Inl TypeError)"

text \<open>
  The loop of lines 72-84.  The logger is the list of lines written so far; an error
  raised outside the \<open>try\<close> block ends the loop with the lines written until then.
\<close>

fun printFrames :: "env \<Rightarrow> nat \<Rightarrow> stack_frame list \<Rightarrow> string list \<Rightarrow> string list \<times> js_error option" where
  "printFrames e len [] logger = (logger, None)"
| "printFrames e len (stack # rest) logger =
     (case formatLocation e stack of
        Inl err \<Rightarrow> (logger, Some err)
      | Inr location \<Rightarrow>
          (case repeat_space (int len - int (length location)) of
             Inl err \<Rightarrow> (logger, Some err)
           | Inr padding \<Rightarrow>
               printFrames e len rest
                 (case sourceLine e stack of
                    Inr line \<Rightarrow> logger @ [location @ padding @ '' - '' @ line]
                  | Inl caught \<Rightarrow> logger @ [location @ padding])))"

text \<open>
  \<open>printStacks\<close> (lines 56-85).  The filter runs before anything is written, so an error
  it raises leaves the logger as it was.
\<close>

definition printStacks :: "env \<Rightarrow> async_resource \<Rightarrow> string list \<Rightarrow> string list \<times> js_error option" where
  "printStacks e asyncResource logger =
     (case filter_displayed (stacks asyncResource) of
        Inl err \<Rightarrow> (logger, Some err)
      | Inr kept \<Rightarrow>
          (let stacks = kept;
               logger1 = logger @ [''''] @ [''# '' @ type asyncResource]
           in if stacks = [] then (logger1 @ [''(unknown stack trace)''], None)
              else case maxLength e stacks 0 of
                     Inl err \<Rightarrow> (logger1, Some err)
                   | Inr len \<Rightarrow> printFrames e len stacks logger1))"

section \<open>The inspection entry point\<close>

text \<open>The loop of lines 51-53.\<close>

fun printAll :: "env \<Rightarrow> async_resource list \<Rightarrow> string list \<Rightarrow> string list \<times> js_error option" where
  "printAll e [] logger = (logger, None)"
| "printAll e (asyncResource # rest) logger =
     (case printStacks e asyncResource logger of
        (logger1, Some err) \<Rightarrow> (logger1, Some err)
      | (logger1, None) \<Rightarrow> printAll e rest logger1)"



section \<open>The registry invariant, in the specification's words\<close>

text \<open>
  The ids created but not yet destroyed whose type tag is not ignored: an id belongs
  to the set when some notification created it with a tag off the ignore list and no
  later notification destroyed it.
\<close>

fun created_not_destroyed :: "notification list \<Rightarrow> nat set" where
  "created_not_destroyed [] = {}"
| "created_not_destroyed (Init asyncId ty triggerAsyncId resource host # ns) =
     (if ty \<notin> set IGNORED_TYPES \<and> Destroy asyncId \<notin> set ns then {asyncId} else {})
       \<union> created_not_destroyed ns"
| "created_not_destroyed (Destroy asyncId # ns) = created_not_destroyed ns"

text \<open>
  The host's side of a notification sequence, as the data model words it: an id is
  unique among the resources alive at any instant and may be reused after destruction.
  \<open>host_live\<close> follows the type tag of the resource alive under each id, and is \<open>None\<close>
  for a sequence that creates an id already alive.  A destroy notification carries no
  tag of its own; its tag is that of the resource alive under its id.
\<close>

fun host_live :: "(nat \<Rightarrow> string option) \<Rightarrow> notification list \<Rightarrow> (nat \<Rightarrow> string option) option" where
  "host_live live [] = Some live"
| "host_live live (Init asyncId ty triggerAsyncId resource host # ns) =
     (if live asyncId \<noteq> None then None else host_live (live(asyncId \<mapsto> ty)) ns)"
| "host_live live (Destroy asyncId # ns) = host_live (live(asyncId := None)) ns"

definition tracked_of :: "(nat \<Rightarrow> string option) \<Rightarrow> nat set" where
  "tracked_of live = {i. \<exists>ty. live i = Some ty \<and> ty \<notin> set IGNORED_TYPES}"

text \<open>
  A notification during which \<open>init\<close> can store its record: the creation's type tag is
  ignored (no capture is made), or the host's capture yields call sites.
\<close>

definition capture_yields_frames :: "notification \<Rightarrow> bool" where
  "capture_yields_frames n =
     (case n of
        Init asyncId ty triggerAsyncId resource host \<Rightarrow>
          (case host of CallSites cs \<Rightarrow> True | NoTrace \<Rightarrow> ty \<in> set IGNORED_TYPES
           | CaptureRaises \<Rightarrow> ty \<in> set IGNORED_TYPES)
      | Destroy asyncId \<Rightarrow> True)"

section \<open>The rendered block, as a value\<close>

text \<open>
  The records on which \<open>printStacks\<close> does not raise, said of the inputs alone: no frame
  has an \<open>undefined\<close> file name, and every frame the filter keeps has a name that
  \<open>fileURLToPath\<close> accepts when it is a \<open>file://\<close> name.  \<open>shown\<close> is the filter's test on a
  frame whose name is not \<open>undefined\<close>.
\<close>

definition shown :: "stack_frame \<Rightarrow> bool" where
  "shown stack =
     (case fileName stack of
        Name f \<Rightarrow> \<not> startsWith f ''node:''
      | Null_name \<Rightarrow> False
      | Undefined_name \<Rightarrow> False)"

definition converts :: "env \<Rightarrow> stack_frame \<Rightarrow> bool" where
  "converts e stack =
     (case fileName stack of
        Name f \<Rightarrow> \<not> startsWith f ''file://'' \<or> fileURLToPath e f \<noteq> None
      | Null_name \<Rightarrow> True
      | Undefined_name \<Rightarrow> True)"

definition renderable :: "env \<Rightarrow> async_resource \<Rightarrow> bool" where
  "renderable e r =
     (list_all (\<lambda>stack. fileName stack \<noteq> Undefined_name) (stacks r)
      \<and> list_all (converts e) (filter shown (stacks r)))"

text \<open>
  The lines one record contributes, written without the logger and without the error
  branches: the formatted location of a frame, the location padded to a width, and the
  excerpt suffix, empty when lines 77-78 raise.
\<close>

definition location :: "env \<Rightarrow> stack_frame \<Rightarrow> string" where
  "location e stack = (case formatLocation e stack of Inr l \<Rightarrow> l | Inl err \<Rightarrow> [])"

definition padded :: "env \<Rightarrow> nat \<Rightarrow> stack_frame \<Rightarrow> string" where
  "padded e len stack =
     location e stack @ replicate (len - length (location e stack)) CHR '' ''"

definition excerpt :: "env \<Rightarrow> stack_frame \<Rightarrow> string" where
  "excerpt e stack = (case sourceLine e stack of Inr line \<Rightarrow> '' - '' @ line | Inl err \<Rightarrow> [])"

definition widest :: "env \<Rightarrow> stack_frame list \<Rightarrow> nat" where
  "widest e ds = Max (set (map (\<lambda>stack. length (location e stack)) ds))"

definition block :: "env \<Rightarrow> async_resource \<Rightarrow> string list" where
  "block e r =
     (let ds = filter shown (stacks r)
      in ['''', ''# '' @ type r] @
         (if ds = [] then [''(unknown stack trace)'']
          else map (\<lambda>stack. padded e (widest e ds) stack @ excerpt e stack) ds))"

section \<open>A scenario\<close>

text \<open>
  Concrete inputs on which the statements below are evaluated: seven notifications
  (an ignored type, a destroyed resource, a resource created with an empty trace), the
  state they lead to, a heap at inspection time and the surroundings of the renderer.
  The first call site of a captured trace is \<open>init\<close>'s own, which \<open>.slice(1)\<close> drops.
\<close>

definition scenario_sites :: "call_site list" where
  "scenario_sites =
     [\<lparr>getLineNumber = 20, getFileName = Name ''/lib/index.js''\<rparr>,
      \<lparr>getLineNumber = 2, getFileName = Name ''/app/server.js''\<rparr>,
      \<lparr>getLineNumber = 5, getFileName = Name ''node:net''\<rparr>]"

definition scenario_notifications :: "notification list" where
  "scenario_notifications =
     [Init 1 ''TCPWRAP'' 0 10 (CallSites scenario_sites),
      Init 2 ''TIMERWRAP'' 0 11 (CallSites scenario_sites),
      Init 3 ''Socket'' 1 13 (CallSites []),
      Init 4 ''Timeout'' 1 14 (CallSites scenario_sites),
      Destroy 4,
      Init 5 ''Timeout'' 3 15 (CallSites scenario_sites),
      Init 6 ''PROMISE'' 3 16 CaptureRaises]"

definition scenario_frames :: "stack_frame list" where
  "scenario_frames =
     [\<lparr>lineNumber = 2, fileName = Name ''/app/server.js''\<rparr>,
      \<lparr>lineNumber = 5, fileName = Name ''node:net''\<rparr>]"

definition scenario_state :: state where
  "scenario_state =
     \<lparr>hook_enabled = True,
      asyncResources =
        [(1, \<lparr>type = ''TCPWRAP'', resourceRef = 10, stacks = scenario_frames\<rparr>),
         (3, \<lparr>type = ''Socket'', resourceRef = 13, stacks = []\<rparr>),
         (5, \<lparr>type = ''Timeout'', resourceRef = 15, stacks = scenario_frames\<rparr>)],
      Error_prepareStackTrace = NoFormatter\<rparr>"

definition scenario_heap :: heap where
  "scenario_heap a =
     (if a = 10 then Some \<lparr>hasRef = Some (Boolean True)\<rparr>
      else if a = 13 then Some \<lparr>hasRef = None\<rparr>
      else if a = 15 then Some \<lparr>hasRef = Some (Boolean False)\<rparr>
      else if a = 17 then Some \<lparr>hasRef = Some Undefined\<rparr>
      else if a = 18 then Some \<lparr>hasRef = Some Null\<rparr>
      else None)"

text \<open>
  On the scenario's text, whose white space is tab, LF, VT, FF, CR and space only,
  \<open>String.prototype.trim\<close> is this function.
\<close>

definition scenario_space :: "char \<Rightarrow> bool" where
  "scenario_space c = (c \<in> set [CHR 0x09, CHR 0x0A, CHR 0x0B, CHR 0x0C, CHR 0x0D, CHR 0x20])"

definition scenario_trim :: "string \<Rightarrow> string" where
  "scenario_trim str = rev (dropWhile scenario_space (rev (dropWhile scenario_space str)))"

definition scenario_env :: env where
  "scenario_env =
     \<lparr>cwd = ''/app'',
      relative = (\<lambda>from to. if startsWith to (from @ ''/'') then drop (length from + 1) to
                              else ''..'' @ to),
      fileURLToPath = (\<lambda>url. if startsWith url ''file:///'' then Some (drop 7 url) else None),
      readFileSync = (\<lambda>path. if path = ''/app/server.js''
                               then Some (''// server'' @ [CR, LF] @ ''  net.createServer()  '' @ [LF])
                               else None),
      trim = scenario_trim\<rparr>"

definition scenario_record :: async_resource where
  "scenario_record =
     \<lparr>type = ''FSREQCALLBACK'', resourceRef = 20,
      stacks =
        [\<lparr>lineNumber = 10, fileName = Name ''/app/server.js''\<rparr>,
         \<lparr>lineNumber = 7, fileName = Null_name\<rparr>,
         \<lparr>lineNumber = 100, fileName = Name ''file:///usr/lib/x.js''\<rparr>,
         \<lparr>lineNumber = 5, fileName = Name ''node:net''\<rparr>,
         \<lparr>lineNumber = 2, fileName = Name ''/app/server.js''\<rparr>]\<rparr>"

definition scenario_displayed :: "stack_frame list" where
  "scenario_displayed =
     [\<lparr>lineNumber = 10, fileName = Name ''/app/server.js''\<rparr>,
      \<lparr>lineNumber = 100, fileName = Name ''file:///usr/lib/x.js''\<rparr>,
      \<lparr>lineNumber = 2, fileName = Name ''/app/server.js''\<rparr>]"


definition eval_record :: async_resource where
  "eval_record =
     \<lparr>type = ''Timeout'', resourceRef = 10,
      stacks = [\<lparr>lineNumber = 1, fileName = Undefined_name\<rparr>,
                \<lparr>lineNumber = 3, fileName = Name ''/app/server.js''\<rparr>]\<rparr>"


section \<open>Facts about the map, the callbacks and the delivery\<close>

lemma Map_keys_set: "Map_keys (Map_set k v m) = insert k (Map_keys m)"
proof (induction k v m rule: Map_set.induct)
  case (1 k v)
  show ?case by (simp add: Map_keys_def)
next
  case (2 k v k' v' m)
  then show ?case by (cases "k' = k") (simp_all add: Map_keys_def insert_commute)
qed

lemma Map_keys_delete: "Map_keys (Map_delete k m) = Map_keys m - {k}"
  by (auto simp: Map_keys_def Map_delete_def)

lemma Map_delete_absent: "k \<notin> Map_keys m \<Longrightarrow> Map_delete k m = m"
  by (induction m) (auto simp: Map_keys_def Map_delete_def)

lemma Map_set_absent: "k \<notin> Map_keys m \<Longrightarrow> Map_set k v m = m @ [(k, v)]"
  by (induction m) (auto simp: Map_keys_def)

lemma captureStackTraces_returns:
  "captureStackTraces host s = (s', Inr v) \<Longrightarrow> s' = s"
  by (cases host) (auto simp: captureStackTraces_def Let_def)

lemma init_ignored: "ty \<in> set IGNORED_TYPES \<Longrightarrow> init s i ty t r host = (s, None)"
  by (simp add: init_def)

lemma init_CallSites:
  "ty \<notin> set IGNORED_TYPES \<Longrightarrow>
   init s i ty t r (CallSites cs) =
     (s\<lparr>asyncResources :=
          Map_set i \<lparr>type = ty, resourceRef = r, stacks = drop 1 (prepareStackTrace cs)\<rparr>
            (asyncResources s)\<rparr>, None)"
  by (simp add: init_def captureStackTraces_def Let_def)

lemma init_returns:
  assumes "init s i ty t r host = (s', None)"
  shows "hook_enabled s' = hook_enabled s \<and>
         Map_keys (asyncResources s') =
           (if ty \<in> set IGNORED_TYPES then Map_keys (asyncResources s)
            else insert i (Map_keys (asyncResources s)))"
proof (cases "ty \<in> set IGNORED_TYPES")
  case True
  with assms show ?thesis by (simp add: init_def)
next
  case False
  show ?thesis
  proof (cases host)
    case (CallSites cs)
    with assms False show ?thesis by (auto simp: init_CallSites Map_keys_set)
  qed (use assms False in \<open>auto simp: init_def captureStackTraces_def Let_def\<close>)
qed

lemma notify_returns:
  assumes "hook_enabled s" and "notify s n = (s', None)"
  shows "hook_enabled s' \<and>
         Map_keys (asyncResources s') =
           (case n of
              Init i ty t r host \<Rightarrow>
                if ty \<in> set IGNORED_TYPES then Map_keys (asyncResources s)
                else insert i (Map_keys (asyncResources s))
            | Destroy i \<Rightarrow> Map_keys (asyncResources s) - {i})"
proof (cases n)
  case (Init i ty t r host)
  with assms init_returns [of s i ty t r host s'] show ?thesis by simp
next
  case (Destroy i)
  with assms show ?thesis by (auto simp: destroy_def Map_keys_delete)
qed

lemma deliver_keys:
  "hook_enabled s \<Longrightarrow> deliver s ns = (s', None) \<Longrightarrow>
   Map_keys (asyncResources s') =
     (Map_keys (asyncResources s) - {i. Destroy i \<in> set ns}) \<union> created_not_destroyed ns"
proof (induction ns arbitrary: s)
  case Nil
  then show ?case by simp
next
  case (Cons n ns)
  obtain s1 r where n1: "notify s n = (s1, r)" by (cases "notify s n")
  with Cons.prems have r: "r = None" and d: "deliver s1 ns = (s', None)"
    by (auto split: option.splits)
  from notify_returns [OF Cons.prems(1) n1 [unfolded r]]
  have en: "hook_enabled s1" and
    keys: "Map_keys (asyncResources s1) =
           (case n of
              Init i ty t r host \<Rightarrow>
                if ty \<in> set IGNORED_TYPES then Map_keys (asyncResources s)
                else insert i (Map_keys (asyncResources s))
            | Destroy i \<Rightarrow> Map_keys (asyncResources s) - {i})"
    by simp_all
  from Cons.IH [OF en d] keys show ?case
    by (cases n) auto
qed

lemma deliver_host_live:
  "hook_enabled s \<Longrightarrow> Map_keys (asyncResources s) = tracked_of live \<Longrightarrow>
   deliver s ns = (s', None) \<Longrightarrow> host_live live ns = Some live' \<Longrightarrow>
   Map_keys (asyncResources s') = tracked_of live'"
proof (induction ns arbitrary: s live)
  case Nil
  then show ?case by simp
next
  case (Cons n ns)
  obtain s1 r where n1: "notify s n = (s1, r)" by (cases "notify s n")
  with Cons.prems have r: "r = None" and d: "deliver s1 ns = (s', None)"
    by (auto split: option.splits)
  from notify_returns [OF Cons.prems(1) n1 [unfolded r]]
  have en: "hook_enabled s1" and
    keys: "Map_keys (asyncResources s1) =
           (case n of
              Init i ty t r host \<Rightarrow>
                if ty \<in> set IGNORED_TYPES then Map_keys (asyncResources s)
                else insert i (Map_keys (asyncResources s))
            | Destroy i \<Rightarrow> Map_keys (asyncResources s) - {i})"
    by simp_all
  show ?case
  proof (cases n)
    case (Init i ty t r host)
    with Cons.prems(4) have fresh: "live i = None"
      and h: "host_live (live(i \<mapsto> ty)) ns = Some live'"
      by (auto split: if_splits)
    have "Map_keys (asyncResources s1) = tracked_of (live(i \<mapsto> ty))"
      using keys Init fresh Cons.prems(2) by (auto simp: tracked_of_def)
    from Cons.IH [OF en this d h] show ?thesis .
  next
    case (Destroy i)
    with Cons.prems(4) have h: "host_live (live(i := None)) ns = Some live'" by simp
    have "Map_keys (asyncResources s1) = tracked_of (live(i := None))"
      using keys Destroy Cons.prems(2) by (auto simp: tracked_of_def)
    from Cons.IH [OF en this d h] show ?thesis .
  qed
qed

lemma notify_yields:
  assumes "capture_yields_frames n"
  shows "\<exists>s'. notify s n = (s', None)"
proof (cases n)
  case (Init i ty t r host)
  show ?thesis
  proof (cases "ty \<in> set IGNORED_TYPES")
    case True
    with Init show ?thesis by (simp add: init_ignored)
  next
    case False
    with assms Init obtain cs where "host = CallSites cs"
      by (cases host) (simp_all add: capture_yields_frames_def)
    with Init False show ?thesis by (simp add: init_CallSites)
  qed
next
  case (Destroy i)
  then show ?thesis by simp
qed

lemma deliver_returns:
  "\<forall>n \<in> set ns. capture_yields_frames n \<Longrightarrow> \<exists>s'. deliver s ns = (s', None)"
proof (induction ns arbitrary: s)
  case Nil
  show ?case by simp
next
  case (Cons n ns)
  from Cons.prems have "capture_yields_frames n" by simp
  from notify_yields [OF this] obtain s1 where "notify s n = (s1, None)" by blast
  moreover from Cons.prems have "\<forall>n \<in> set ns. capture_yields_frames n" by simp
  from Cons.IH [OF this] obtain s' where "deliver s1 ns = (s', None)" by blast
  ultimately show ?case by simp
qed

section \<open>Facts about the renderer\<close>

lemma filter_displayed_append:
  "filter_displayed (xs @ ys) =
     (case filter_displayed xs of
        Inl err \<Rightarrow> Inl err
      | Inr kept \<Rightarrow>
          (case filter_displayed ys of Inl err \<Rightarrow> Inl err | Inr kept' \<Rightarrow> Inr (kept @ kept')))"
  by (induction xs) (auto split: sum.splits)

lemma filter_displayed_shown:
  "list_all (\<lambda>stack. fileName stack \<noteq> Undefined_name) xs \<Longrightarrow>
   filter_displayed xs = Inr (filter shown xs)"
  by (induction xs) (auto simp: displayed_def shown_def split: file_name.splits)

lemma filter_displayed_undefined:
  "\<not> list_all (\<lambda>stack. fileName stack \<noteq> Undefined_name) xs \<Longrightarrow>
   filter_displayed xs = Inl TypeError"
  by (induction xs) (auto simp: displayed_def split: file_name.splits sum.splits)

lemma filter_displayed_Inr:
  "filter_displayed xs = Inr ds \<Longrightarrow>
   list_all (\<lambda>stack. fileName stack \<noteq> Undefined_name) xs \<and> ds = filter shown xs"
  using filter_displayed_shown [of xs] filter_displayed_undefined [of xs]
  by (cases "list_all (\<lambda>stack. fileName stack \<noteq> Undefined_name) xs") simp_all

lemma formatLocation_shown:
  "shown stack \<Longrightarrow> converts e stack \<Longrightarrow> formatLocation e stack = Inr (location e stack)"
  by (cases "fileName stack")
     (auto simp: shown_def converts_def location_def formatLocation_def formatFilePath_def
        normalizeFilePath_def Let_def split: option.splits)

lemma formatLocation_not_converts:
  "shown stack \<Longrightarrow> \<not> converts e stack \<Longrightarrow> formatLocation e stack = Inl HostError"
  by (cases "fileName stack")
     (auto simp: shown_def converts_def formatLocation_def formatFilePath_def
        normalizeFilePath_def)

lemma maxLength_located:
  "\<forall>stack \<in> set ds. formatLocation e stack = Inr (location e stack) \<Longrightarrow>
   maxLength e ds len = Inr (Max (insert len (set (map (\<lambda>stack. length (location e stack)) ds))))"
proof (induction ds arbitrary: len)
  case Nil
  show ?case by simp
next
  case (Cons d ds)
  have fin: "finite (set (map (\<lambda>stack. length (location e stack)) ds))" by simp
  have "Max (insert (max len (length (location e d))) (set (map (\<lambda>stack. length (location e stack)) ds)))
        = Max (insert len (insert (length (location e d)) (set (map (\<lambda>stack. length (location e stack)) ds))))"
    using fin by (cases "set (map (\<lambda>stack. length (location e stack)) ds) = {}") (simp_all add: max.assoc)
  with Cons.prems Cons.IH [of "max len (length (location e d))"] show ?case
    by simp
qed

lemma maxLength_widest:
  assumes "\<forall>stack \<in> set ds. formatLocation e stack = Inr (location e stack)" and "ds \<noteq> []"
  shows "maxLength e ds 0 = Inr (widest e ds)"
proof -
  let ?S = "set (map (\<lambda>stack. length (location e stack)) ds)"
  have "finite ?S" and "?S \<noteq> {}" using assms(2) by simp_all
  then have "Max (insert 0 ?S) = Max ?S" by simp
  with maxLength_located [OF assms(1)] show ?thesis by (simp add: widest_def)
qed

lemma maxLength_raises:
  "stack \<in> set ds \<Longrightarrow> formatLocation e stack = Inl err \<Longrightarrow> \<exists>err'. maxLength e ds len = Inl err'"
  by (induction ds arbitrary: len) (auto split: sum.splits)

lemma location_le_widest: "stack \<in> set ds \<Longrightarrow> length (location e stack) \<le> widest e ds"
  by (simp add: widest_def)

lemma printFrames_located:
  "\<forall>stack \<in> set ds. formatLocation e stack = Inr (location e stack)
      \<and> length (location e stack) \<le> len \<Longrightarrow>
   printFrames e len ds logger =
     (logger @ map (\<lambda>stack. padded e len stack @ excerpt e stack) ds, None)"
proof (induction ds arbitrary: logger)
  case Nil
  show ?case by simp
next
  case (Cons d ds)
  from Cons.prems have d: "formatLocation e d = Inr (location e d)"
    and le: "length (location e d) \<le> len" by simp_all
  from le have rep: "repeat_space (int len - int (length (location e d))) =
      Inr (replicate (len - length (location e d)) CHR '' '')"
    by (simp add: repeat_space_def nat_diff_distrib')
  show ?case
    using Cons.prems
    by (cases "sourceLine e d") (simp_all add: d rep Cons.IH padded_def excerpt_def)
qed

lemma renderable_located:
  assumes "renderable e r" and "stack \<in> set (filter shown (stacks r))"
  shows "formatLocation e stack = Inr (location e stack)"
  using assms by (auto simp: renderable_def list_all_iff formatLocation_shown)

lemma printStacks_block:
  assumes "renderable e r"
  shows "printStacks e r logger = (logger @ block e r, None)"
proof -
  let ?ds = "filter shown (stacks r)"
  from assms have f: "filter_displayed (stacks r) = Inr ?ds"
    by (simp add: renderable_def filter_displayed_shown)
  show ?thesis
  proof (cases "?ds = []")
    case True
    with f show ?thesis by (simp add: printStacks_def block_def)
  next
    case False
    have all: "\<forall>stack \<in> set ?ds. formatLocation e stack = Inr (location e stack)"
      using renderable_located [OF assms] by blast
    then have "\<forall>stack \<in> set ?ds. formatLocation e stack = Inr (location e stack)
        \<and> length (location e stack) \<le> widest e ?ds"
      using location_le_widest [of _ ?ds e] by blast
    from printFrames_located [OF this] maxLength_widest [OF all False] False f
    show ?thesis by (simp add: printStacks_def block_def Let_def)
  qed
qed

lemma printStacks_raises:
  assumes "\<not> renderable e r"
  shows "\<exists>err. printStacks e r logger = (logger, Some err)
           \<or> printStacks e r logger = (logger @ ['''', ''# '' @ type r], Some err)"
proof (cases "list_all (\<lambda>stack. fileName stack \<noteq> Undefined_name) (stacks r)")
  case False
  then show ?thesis by (simp add: printStacks_def filter_displayed_undefined)
next
  case True
  then have f: "filter_displayed (stacks r) = Inr (filter shown (stacks r))"
    by (rule filter_displayed_shown)
  from assms True obtain stack where s: "stack \<in> set (filter shown (stacks r))"
    and c: "\<not> converts e stack"
    by (auto simp: renderable_def list_all_iff)
  from s have "shown stack" by simp
  from formatLocation_not_converts [OF this c] s
  obtain err where "maxLength e (filter shown (stacks r)) 0 = Inl err"
    using maxLength_raises by blast
  moreover have "filter shown (stacks r) \<noteq> []"
  proof
    assume "filter shown (stacks r) = []"
    with s show False by (simp only: list.set empty_iff)
  qed
  ultimately show ?thesis using f by (simp add: printStacks_def Let_def)
qed

lemma printStacks_returns_iff: "snd (printStacks e r logger) = None \<longleftrightarrow> renderable e r"
  using printStacks_block [of e r logger] printStacks_raises [of e r logger]
  by (cases "renderable e r") auto




lemma shown_iff:
  "shown stack \<longleftrightarrow> (\<exists>f. fileName stack = Name f \<and> \<not> startsWith f ''node:'')"
  by (cases "fileName stack") (simp_all add: shown_def)

lemma displayed_False_iff:
  "displayed stack = Inr False \<longleftrightarrow>
   fileName stack = Null_name \<or> (\<exists>f. fileName stack = Name f \<and> startsWith f ''node:'')"
  by (cases "fileName stack") (simp_all add: displayed_def)

lemma block_line:
  assumes "renderable e r" and "ds = filter shown (stacks r)" and "i < length ds"
  shows "fst (printStacks e r logger) ! (length logger + 2 + i)
           = padded e (widest e ds) (ds ! i) @ excerpt e (ds ! i)"
proof -
  from assms have ne: "filter shown (stacks r) \<noteq> []" by auto
  let ?g = "\<lambda>stack. padded e (widest e ds) stack @ excerpt e stack"
  let ?head = "logger @ ['''', ''# '' @ type r]"
  have "fst (printStacks e r logger) = ?head @ map ?g ds"
    using ne assms(2) by (simp add: printStacks_block [OF assms(1)] block_def Let_def)
  then have "fst (printStacks e r logger) ! (length logger + 2 + i)
             = (?head @ map ?g ds) ! (length ?head + i)"
    by simp
  also have "\<dots> = map ?g ds ! i" by (rule nth_append_length_plus)
  also have "\<dots> = ?g (ds ! i)" using assms(3) by simp
  finally show ?thesis .
qed

lemma nth_shown:
  assumes "ds = filter shown (stacks r)" and "i < length ds"
  shows "shown (ds ! i)"
proof -
  from assms(2) have "ds ! i \<in> set ds" by simp
  with assms(1) show ?thesis by simp
qed

section \<open>The scenario, evaluated\<close>

lemma ignored_simps:
  "''TCPWRAP'' \<notin> set IGNORED_TYPES" "''Socket'' \<notin> set IGNORED_TYPES"
  "''Timeout'' \<notin> set IGNORED_TYPES" "''TIMERWRAP'' \<in> set IGNORED_TYPES"
  "''PROMISE'' \<in> set IGNORED_TYPES"
  by (simp_all add: IGNORED_TYPES_def)

lemma scenario_deliver:
  "deliver (initial_state NoFormatter) scenario_notifications = (scenario_state, None)"
  by (simp add: scenario_notifications_def scenario_state_def initial_state_def init_def
      captureStackTraces_def Let_def destroy_def Map_delete_def ignored_simps
      scenario_sites_def scenario_frames_def prepareStackTrace_def)

lemmas render_simps =
  printStacks_def formatLocation_def formatFilePath_def normalizeFilePath_def startsWith_def
  displayed_def sourceLine_def repeat_space_def show_int_def show_nat.simps scenario_trim_def
  scenario_space_def LF_def CR_def Let_def scenario_env_def

lemma replicate_5_6:
  "replicate 5 c = [c, c, c, c, c]" "replicate 6 c = [c, c, c, c, c, c]"
  by (simp_all add: numeral_eq_Suc)

lemma scenario_record_displayed:
  "filter shown (stacks scenario_record) = scenario_displayed"
  by (simp add: scenario_record_def scenario_displayed_def shown_def startsWith_def)

lemma scenario_record_renderable: "renderable scenario_env scenario_record"
  by (simp add: renderable_def scenario_record_def shown_def converts_def startsWith_def
      scenario_env_def)

lemma scenario_record_lines:
  "printStacks scenario_env scenario_record []
     = (['''', ''# FSREQCALLBACK'',
         ''server.js:10     '',
         ''/usr/lib/x.js:100'',
         ''server.js:2       - net.createServer()''], None)"
  by (simp add: render_simps scenario_record_def replicate_5_6)


section \<open>The registry\<close>

text \<open>
  Claim C2 as stated does not hold for every sequence: a creation with a tracked type
  during which the host records no trace makes \<open>init\<close> raise before it stores anything,
  so the id is created, not destroyed, and not a key.
\<close>

theorem registry_misses_id_when_init_raises:
  "deliver (initial_state NoFormatter) [Init 1 ''Timeout'' 0 1 NoTrace]
     = (initial_state NoFormatter, Some TypeError)
   \<and> Map_keys (asyncResources (fst (deliver (initial_state NoFormatter)
        [Init 1 ''Timeout'' 0 1 NoTrace]))) = {}
   \<and> created_not_destroyed [Init 1 ''Timeout'' 0 1 NoTrace] = {1}"
  by (simp add: initial_state_def init_def captureStackTraces_def Let_def ignored_simps
      Map_keys_def)

text \<open>
  Claim C2, amended.  Take any sequence of notifications delivered from load on in
  which the stack capture of every creation with a tracked type yields call sites.  No
  callback raises, and the keys of the registry are exactly the ids created with a tag
  off the ignore list and not destroyed since.  A create notification with an ignored
  tag leaves the whole state as it was.  A destroy notification for a resource whose tag
  is ignored (the resource alive under that id, ids being unique among the resources
  alive) leaves the state as it was, and so does a destroy notification for an id that
  is not a key.
\<close>

theorem registry_keys_created_not_destroyed:
  "((\<forall>n \<in> set ns. capture_yields_frames n) \<longrightarrow>
      (\<exists>s. deliver (initial_state f) ns = (s, None)
         \<and> Map_keys (asyncResources s) = created_not_destroyed ns))
   \<and> (ty \<in> set IGNORED_TYPES \<longrightarrow> notify t (Init i ty trig r host) = (t, None))
   \<and> ((\<forall>n \<in> set ns. capture_yields_frames n) \<and> host_live (\<lambda>i. None) ns = Some live
        \<and> live j = Some ty' \<and> ty' \<in> set IGNORED_TYPES \<longrightarrow>
      (\<exists>s. deliver (initial_state f) ns = (s, None) \<and> notify s (Destroy j) = (s, None)))
   \<and> (j' \<notin> Map_keys (asyncResources t) \<longrightarrow> notify t (Destroy j') = (t, None))"
proof (intro conjI impI)
  assume c: "\<forall>n \<in> set ns. capture_yields_frames n"
  from deliver_returns [OF c] obtain s where d: "deliver (initial_state f) ns = (s, None)"
    by blast
  have "hook_enabled (initial_state f)" by (simp add: initial_state_def)
  from deliver_keys [OF this d]
  have "Map_keys (asyncResources s) = created_not_destroyed ns"
    by (simp add: initial_state_def Map_keys_def)
  with d show "\<exists>s. deliver (initial_state f) ns = (s, None)
         \<and> Map_keys (asyncResources s) = created_not_destroyed ns"
    by blast
next
  assume "ty \<in> set IGNORED_TYPES"
  then show "notify t (Init i ty trig r host) = (t, None)" by (simp add: init_ignored)
next
  assume a: "(\<forall>n \<in> set ns. capture_yields_frames n) \<and> host_live (\<lambda>i. None) ns = Some live
        \<and> live j = Some ty' \<and> ty' \<in> set IGNORED_TYPES"
  then have c: "\<forall>n \<in> set ns. capture_yields_frames n" by blast
  from deliver_returns [OF c] obtain s where d: "deliver (initial_state f) ns = (s, None)"
    by blast
  have en: "hook_enabled (initial_state f)" by (simp add: initial_state_def)
  have "Map_keys (asyncResources (initial_state f)) = tracked_of (\<lambda>i. None)"
    by (simp add: initial_state_def Map_keys_def tracked_of_def)
  from deliver_host_live [OF en this d] a
  have "Map_keys (asyncResources s) = tracked_of live" by blast
  with a have "j \<notin> Map_keys (asyncResources s)" by (auto simp: tracked_of_def)
  then have "notify s (Destroy j) = (s, None)"
    by (simp add: destroy_def Map_delete_absent)
  with d show "\<exists>s. deliver (initial_state f) ns = (s, None) \<and> notify s (Destroy j) = (s, None)"
    by blast
next
  assume "j' \<notin> Map_keys (asyncResources t)"
  then show "notify t (Destroy j') = (t, None)"
    by (simp add: destroy_def Map_delete_absent)
qed

theorem registry_keys_created_not_destroyed_witness:
  "list_all capture_yields_frames scenario_notifications
   \<and> deliver (initial_state NoFormatter) scenario_notifications = (scenario_state, None)
   \<and> Map_keys (asyncResources scenario_state) = {1, 3, 5}
   \<and> created_not_destroyed scenario_notifications = {1, 3, 5}
   \<and> ''PROMISE'' \<in> set IGNORED_TYPES
   \<and> notify scenario_state (Init 6 ''PROMISE'' 3 16 CaptureRaises) = (scenario_state, None)
   \<and> (\<exists>live. host_live (\<lambda>i. None) scenario_notifications = Some live \<and> live 6 = Some ''PROMISE'')
   \<and> notify scenario_state (Destroy 6) = (scenario_state, None)
   \<and> 4 \<notin> Map_keys (asyncResources scenario_state)
   \<and> notify scenario_state (Destroy 4) = (scenario_state, None)"
proof -
  have c: "list_all capture_yields_frames scenario_notifications"
    by (simp add: scenario_notifications_def capture_yields_frames_def ignored_simps)
  then have c': "\<forall>n \<in> set scenario_notifications. capture_yields_frames n"
    by (simp add: list_all_iff)
  have h: "host_live (\<lambda>i. None) scenario_notifications
           = Some (the (host_live (\<lambda>i. None) scenario_notifications))"
    "the (host_live (\<lambda>i. None) scenario_notifications) 6 = Some ''PROMISE''"
    by (simp_all add: scenario_notifications_def)
  have k: "Map_keys (asyncResources scenario_state) = {1, 3, 5}"
    by (auto simp: scenario_state_def Map_keys_def)
  have cnd: "created_not_destroyed scenario_notifications = {1, 3, 5}"
    by (auto simp: scenario_notifications_def ignored_simps)
  note t = registry_keys_created_not_destroyed
    [where f = NoFormatter and ns = scenario_notifications and ty = "''PROMISE''"
       and t = scenario_state and i = 6 and trig = 3 and r = 16 and host = CaptureRaises
       and live = "the (host_live (\<lambda>i. None) scenario_notifications)" and j = 6
       and ty' = "''PROMISE''" and j' = 4]
  from t c' h have "\<exists>s. deliver (initial_state NoFormatter) scenario_notifications = (s, None)
      \<and> notify s (Destroy 6) = (s, None)"
    by (simp add: ignored_simps)
  then have d6: "notify scenario_state (Destroy 6) = (scenario_state, None)"
    by (simp add: scenario_deliver)
  from t have i6: "notify scenario_state (Init 6 ''PROMISE'' 3 16 CaptureRaises) = (scenario_state, None)"
    by (simp add: ignored_simps)
  from t k have d4: "notify scenario_state (Destroy 4) = (scenario_state, None)"
    by simp
  show ?thesis
    using c scenario_deliver k cnd h d6 i6 d4 by (auto simp: ignored_simps)
qed

section \<open>The liveness filter\<close>



text \<open>
  Claim C9.  Filtering the result of the filter again, under the same heap, gives the
  same list of records, hence the same set.
\<close>

theorem liveness_filter_idempotent:
  "filterActive h (filterActive h rs) = filterActive h rs
   \<and> set (filterActive h (filterActive h rs)) = set (filterActive h rs)"
  by (simp add: filterActive_def)

text \<open>
  Claim C10.  A resource whose \<open>hasRef\<close> method answers \<open>undefined\<close> or \<open>null\<close> is treated
  as ref'd: its record is kept, as for a resource without the method.
\<close>

theorem nullish_answer_counts_as_refd:
  "r \<in> set rs \<Longrightarrow> deref h (resourceRef r) = Some resource \<Longrightarrow>
   hasRef resource = Some Undefined \<or> hasRef resource = Some Null \<Longrightarrow>
   isActive h r \<and> r \<in> set (filterActive h rs)"
  by (auto simp: filterActive_def isActive_def optional_call_def nullish_coalesce_def)

theorem nullish_answer_counts_as_refd_witness:
  "deref scenario_heap 17 = Some \<lparr>hasRef = Some Undefined\<rparr>
   \<and> deref scenario_heap 18 = Some \<lparr>hasRef = Some Null\<rparr>
   \<and> filterActive scenario_heap
        [\<lparr>type = ''Timeout'', resourceRef = 17, stacks = []\<rparr>,
         \<lparr>type = ''Timeout'', resourceRef = 15, stacks = []\<rparr>,
         \<lparr>type = ''FSEVENTWRAP'', resourceRef = 18, stacks = []\<rparr>]
      = [\<lparr>type = ''Timeout'', resourceRef = 17, stacks = []\<rparr>,
         \<lparr>type = ''FSEVENTWRAP'', resourceRef = 18, stacks = []\<rparr>]"
  using nullish_answer_counts_as_refd
    [of "\<lparr>type = ''Timeout'', resourceRef = 17, stacks = []\<rparr>"
        "[\<lparr>type = ''Timeout'', resourceRef = 17, stacks = []\<rparr>,
          \<lparr>type = ''Timeout'', resourceRef = 15, stacks = []\<rparr>,
          \<lparr>type = ''FSEVENTWRAP'', resourceRef = 18, stacks = []\<rparr>]"
        scenario_heap "\<lparr>hasRef = Some Undefined\<rparr>"]
    nullish_answer_counts_as_refd
    [of "\<lparr>type = ''FSEVENTWRAP'', resourceRef = 18, stacks = []\<rparr>"
        "[\<lparr>type = ''Timeout'', resourceRef = 17, stacks = []\<rparr>,
          \<lparr>type = ''Timeout'', resourceRef = 15, stacks = []\<rparr>,
          \<lparr>type = ''FSEVENTWRAP'', resourceRef = 18, stacks = []\<rparr>]"
        scenario_heap "\<lparr>hasRef = Some Null\<rparr>"]
  by (simp add: filterActive_def isActive_def optional_call_def nullish_coalesce_def
      deref_def scenario_heap_def)

section \<open>The stack capturer and \<open>init\<close>\<close>

text \<open>
  Claim C3 as stated does not hold: when the host's capture raises, the function is
  left between lines 115 and 119, and the global formatter stays the module's own.
\<close>

theorem captureStackTraces_raise_keeps_module_formatter:
  "captureStackTraces CaptureRaises (initial_state NoFormatter)
     = (\<lparr>hook_enabled = True, asyncResources = [], Error_prepareStackTrace = ModuleFormatter\<rparr>,
        Inl HostError)
   \<and> Error_prepareStackTrace (fst (captureStackTraces CaptureRaises (initial_state NoFormatter)))
       \<noteq> Error_prepareStackTrace (initial_state NoFormatter)"
  by (simp add: captureStackTraces_def initial_state_def)

text \<open>
  Claim C3, amended.  After any invocation of \<open>captureStackTraces\<close> that returns
  normally, \<open>Error.prepareStackTrace\<close> equals its value from before the invocation; the
  whole state is as before.
\<close>

theorem captureStackTraces_restores_on_return:
  "captureStackTraces host s = (s', Inr capturedTraces) \<Longrightarrow>
   Error_prepareStackTrace s' = Error_prepareStackTrace s \<and> s' = s"
  using captureStackTraces_returns [of host s s' capturedTraces] by simp

theorem captureStackTraces_restores_on_return_witness:
  "captureStackTraces (CallSites scenario_sites) (initial_state (OtherFormatter 7))
     = (initial_state (OtherFormatter 7), Inr (FrameArray (prepareStackTrace scenario_sites)))
   \<and> Error_prepareStackTrace (initial_state (OtherFormatter 7)) = OtherFormatter 7"
  using captureStackTraces_restores_on_return
    [of "CallSites scenario_sites" "initial_state (OtherFormatter 7)"
        "initial_state (OtherFormatter 7)" "FrameArray (prepareStackTrace scenario_sites)"]
  by (simp add: captureStackTraces_def initial_state_def)

text \<open>
  Claim C8 as stated does not hold: \<open>init\<close> has no handler, so an error raised by the
  capture leaves the callback, and so does the TypeError of \<open>.slice(1)\<close> when the host
  recorded no trace.
\<close>

theorem init_raises_when_capture_fails:
  "snd (init (initial_state NoFormatter) 4 ''Timeout'' 1 14 CaptureRaises) = Some HostError
   \<and> snd (init (initial_state NoFormatter) 4 ''Timeout'' 1 14 NoTrace) = Some TypeError"
  by (simp add: init_def captureStackTraces_def initial_state_def ignored_simps)

text \<open>
  Claim C8, amended.  \<open>init\<close> returns without raising for every creation notification
  whose type tag is on the ignore list, and for every one during which the stack capture
  yields a frame array.
\<close>

theorem init_returns_when_capture_succeeds:
  "ty \<in> set IGNORED_TYPES \<or> host = CallSites cs \<Longrightarrow>
   snd (init s asyncId ty triggerAsyncId resource host) = None"
  by (auto simp: init_def captureStackTraces_def Let_def)

theorem init_returns_when_capture_succeeds_witness:
  "''PROMISE'' \<in> set IGNORED_TYPES
   \<and> snd (init scenario_state 6 ''PROMISE'' 3 16 CaptureRaises) = None
   \<and> snd (init scenario_state 7 ''Timeout'' 3 19 (CallSites scenario_sites)) = None"
  using init_returns_when_capture_succeeds [of "''PROMISE''" CaptureRaises "[]" scenario_state 6 3 16]
    init_returns_when_capture_succeeds
      [of "''Timeout''" "CallSites scenario_sites" scenario_sites scenario_state 7 3 19]
  by (simp add: ignored_simps)

section \<open>The report\<close>

text \<open>
  Claim C4.  A frame whose file name is \<open>null\<close> or starts with \<open>node:\<close> has no effect on
  what \<open>printStacks\<close> does: the result is the same with the frame removed from the
  record.  When every frame of a record is of that kind, \<open>printStacks\<close> writes the blank
  line, the header and the line \<open>(unknown stack trace)\<close>, nothing else, and the loop of
  the entry point goes on with the next record.  On a record that is rendered without
  an error the block has, after its two heading lines, one line for each frame that is
  not of that kind, or the single placeholder line when there is none.
\<close>

theorem dropped_frames_and_unknown_stack:
  "((fileName stack = Null_name \<or> (\<exists>f. fileName stack = Name f \<and> startsWith f ''node:'')) \<longrightarrow>
      printStacks e (r\<lparr>stacks := before @ stack # after\<rparr>) logger
        = printStacks e (r\<lparr>stacks := before @ after\<rparr>) logger)
   \<and> ((\<forall>stack \<in> set (stacks r').
          fileName stack = Null_name \<or> (\<exists>f. fileName stack = Name f \<and> startsWith f ''node:'')) \<longrightarrow>
        printStacks e r' logger
          = (logger @ ['''', ''# '' @ type r', ''(unknown stack trace)''], None)
        \<and> printAll e (r' # rs) logger
          = printAll e rs (logger @ ['''', ''# '' @ type r', ''(unknown stack trace)'']))
   \<and> (renderable e r \<longrightarrow>
        length (fst (printStacks e r logger))
          = length logger + 2
            + max 1 (length (filter (\<lambda>stack. \<exists>f. fileName stack = Name f \<and> \<not> startsWith f ''node:'')
                               (stacks r))))"
proof (intro conjI impI)
  assume "fileName stack = Null_name \<or> (\<exists>f. fileName stack = Name f \<and> startsWith f ''node:'')"
  then have "displayed stack = Inr False" by (simp add: displayed_False_iff)
  then have "filter_displayed (stack # after) = filter_displayed after"
    by (simp split: sum.splits)
  then have "filter_displayed (before @ stack # after) = filter_displayed (before @ after)"
    by (simp only: filter_displayed_append)
  then show "printStacks e (r\<lparr>stacks := before @ stack # after\<rparr>) logger
        = printStacks e (r\<lparr>stacks := before @ after\<rparr>) logger"
    by (simp add: printStacks_def cong: sum.case_cong)
next
  assume a: "\<forall>stack \<in> set (stacks r').
          fileName stack = Null_name \<or> (\<exists>f. fileName stack = Name f \<and> startsWith f ''node:'')"
  then have "\<forall>stack \<in> set (stacks r'). fileName stack \<noteq> Undefined_name \<and> \<not> shown stack"
    by (auto simp: shown_def)
  then have "list_all (\<lambda>stack. fileName stack \<noteq> Undefined_name) (stacks r')"
    and "filter shown (stacks r') = []"
    by (simp_all add: list_all_iff filter_empty_conv)
  then have "filter_displayed (stacks r') = Inr []"
    by (simp add: filter_displayed_shown)
  then show p: "printStacks e r' logger
          = (logger @ ['''', ''# '' @ type r', ''(unknown stack trace)''], None)"
    by (simp add: printStacks_def)
  show "printAll e (r' # rs) logger
          = printAll e rs (logger @ ['''', ''# '' @ type r', ''(unknown stack trace)''])"
    by (simp add: p)
next
  assume r: "renderable e r"
  have "shown = (\<lambda>stack. \<exists>f. fileName stack = Name f \<and> \<not> startsWith f ''node:'')"
    by (rule ext) (simp add: shown_iff)
  then have "length (block e r)
      = 2 + max 1 (length (filter (\<lambda>stack. \<exists>f. fileName stack = Name f \<and> \<not> startsWith f ''node:'')
                             (stacks r)))"
    by (cases "filter shown (stacks r)") (auto simp: block_def Let_def)
  then show "length (fst (printStacks e r logger))
       = length logger + 2
         + max 1 (length (filter (\<lambda>stack. \<exists>f. fileName stack = Name f \<and> \<not> startsWith f ''node:'')
                            (stacks r)))"
    by (simp add: printStacks_block [OF r])
qed

theorem dropped_frames_and_unknown_stack_witness:
  "fileName \<lparr>lineNumber = 5, fileName = Name ''node:net''\<rparr> = Name ''node:net''
   \<and> startsWith ''node:net'' ''node:''
   \<and> printStacks scenario_env
        (scenario_record\<lparr>stacks := [\<lparr>lineNumber = 2, fileName = Name ''/app/server.js''\<rparr>]
            @ \<lparr>lineNumber = 5, fileName = Name ''node:net''\<rparr> # []\<rparr>) []
      = printStacks scenario_env
        (scenario_record\<lparr>stacks := [\<lparr>lineNumber = 2, fileName = Name ''/app/server.js''\<rparr>] @ []\<rparr>) []
   \<and> printStacks scenario_env
        (scenario_record\<lparr>stacks := [\<lparr>lineNumber = 2, fileName = Name ''/app/server.js''\<rparr>] @ []\<rparr>) []
      = (['''', ''# FSREQCALLBACK'', ''server.js:2 - net.createServer()''], None)
   \<and> set (stacks \<lparr>type = ''Timeout'', resourceRef = 15,
                    stacks = [\<lparr>lineNumber = 5, fileName = Name ''node:net''\<rparr>,
                              \<lparr>lineNumber = 7, fileName = Null_name\<rparr>]\<rparr>)
      = {\<lparr>lineNumber = 5, fileName = Name ''node:net''\<rparr>, \<lparr>lineNumber = 7, fileName = Null_name\<rparr>}
   \<and> printAll scenario_env
        [\<lparr>type = ''Timeout'', resourceRef = 15,
          stacks = [\<lparr>lineNumber = 5, fileName = Name ''node:net''\<rparr>,
                    \<lparr>lineNumber = 7, fileName = Null_name\<rparr>]\<rparr>,
         \<lparr>type = ''Socket'', resourceRef = 13, stacks = []\<rparr>] []
      = (['''', ''# Timeout'', ''(unknown stack trace)'',
          '''', ''# Socket'', ''(unknown stack trace)''], None)
   \<and> renderable scenario_env scenario_record
   \<and> length (stacks scenario_record) = 5
   \<and> length (fst (printStacks scenario_env scenario_record [])) = 5"
  using dropped_frames_and_unknown_stack
    [where stack = "\<lparr>lineNumber = 5, fileName = Name ''node:net''\<rparr>"
        and e = scenario_env and r = scenario_record
        and before = "[\<lparr>lineNumber = 2, fileName = Name ''/app/server.js''\<rparr>]"
        and after = "[]" and logger = "[]"
        and r' = "\<lparr>type = ''Timeout'', resourceRef = 15,
          stacks = [\<lparr>lineNumber = 5, fileName = Name ''node:net''\<rparr>,
                    \<lparr>lineNumber = 7, fileName = Null_name\<rparr>]\<rparr>"
        and rs = "[\<lparr>type = ''Socket'', resourceRef = 13, stacks = []\<rparr>]"]
    scenario_record_renderable
  by (simp add: render_simps scenario_record_def replicate_5_6)




text \<open>
  Claim C6.  Whether \<open>printStacks\<close> raises is decided by the frames' file names alone: it
  returns without an error exactly on the renderable records, and neither the file
  system nor \<open>trim\<close> has a part in that condition, so no error of the read reaches the
  caller.  On such a record, for the \<open>i\<close>-th displayed frame: when the read of its file
  fails or its line number is outside the file's lines, the line written is the frame's
  location padded to the block's width, with no suffix; when the read succeeds and the
  line exists, the same padded location is followed by \<open> - \<close> and the trimmed source line.
\<close>

theorem source_read_failure_is_swallowed:
  "(snd (printStacks e r logger) = None \<longleftrightarrow> renderable e r)
   \<and> renderable (e\<lparr>readFileSync := read, trim := tr\<rparr>) r = renderable e r
   \<and> (renderable e r \<and> ds = filter shown (stacks r) \<and> i < length ds \<longrightarrow>
       (\<exists>f path.
          fileName (ds ! i) = Name f \<and> normalizeFilePath e f = Inr path
          \<and> formatLocation e (ds ! i) = Inr (location e (ds ! i))
          \<and> (readFileSync e path = None
                \<or> (\<exists>content. readFileSync e path = Some content
                      \<and> (lineNumber (ds ! i) < 1
                          \<or> int (length (split_lines content)) < lineNumber (ds ! i))) \<longrightarrow>
              fst (printStacks e r logger) ! (length logger + 2 + i)
                = location e (ds ! i)
                    @ replicate (widest e ds - length (location e (ds ! i))) CHR '' '')
          \<and> (\<forall>content. readFileSync e path = Some content
                  \<and> 1 \<le> lineNumber (ds ! i)
                  \<and> lineNumber (ds ! i) \<le> int (length (split_lines content)) \<longrightarrow>
              fst (printStacks e r logger) ! (length logger + 2 + i)
                = location e (ds ! i)
                    @ replicate (widest e ds - length (location e (ds ! i))) CHR '' ''
                    @ '' - '' @ trim e (split_lines content ! nat (lineNumber (ds ! i) - 1)))))"
proof (intro conjI impI)
  show "snd (printStacks e r logger) = None \<longleftrightarrow> renderable e r"
    by (rule printStacks_returns_iff)
  have "converts (e\<lparr>readFileSync := read, trim := tr\<rparr>) = converts e"
    by (rule ext) (simp add: converts_def cong: file_name.case_cong)
  then show "renderable (e\<lparr>readFileSync := read, trim := tr\<rparr>) r = renderable e r"
    by (simp add: renderable_def)
next
  assume a: "renderable e r \<and> ds = filter shown (stacks r) \<and> i < length ds"
  then have r: "renderable e r" and ds: "ds = filter shown (stacks r)" and i: "i < length ds"
    by blast+
  have sh: "shown (ds ! i)" by (rule nth_shown [OF ds i])
  then obtain f where f: "fileName (ds ! i) = Name f" by (auto simp: shown_iff)
  have mem: "ds ! i \<in> set (filter shown (stacks r))"
    using nth_mem [OF i] by (simp only: ds [symmetric])
  have loc: "formatLocation e (ds ! i) = Inr (location e (ds ! i))"
    by (rule renderable_located [OF r mem])
  then obtain path where p: "normalizeFilePath e f = Inr path"
    using f by (auto simp: formatLocation_def formatFilePath_def split: sum.splits)
  note line = block_line [OF r ds i, of logger, unfolded padded_def]
  have fail: "fst (printStacks e r logger) ! (length logger + 2 + i)
                = location e (ds ! i)
                    @ replicate (widest e ds - length (location e (ds ! i))) CHR '' ''"
    if "readFileSync e path = None
          \<or> (\<exists>content. readFileSync e path = Some content
                \<and> (lineNumber (ds ! i) < 1
                    \<or> int (length (split_lines content)) < lineNumber (ds ! i)))"
  proof -
    from that have "excerpt e (ds ! i) = []"
      using f p by (auto simp: excerpt_def sourceLine_def Let_def)
    with line show ?thesis by simp
  qed
  have ok: "fst (printStacks e r logger) ! (length logger + 2 + i)
                = location e (ds ! i)
                    @ replicate (widest e ds - length (location e (ds ! i))) CHR '' ''
                    @ '' - '' @ trim e (split_lines content ! nat (lineNumber (ds ! i) - 1))"
    if "readFileSync e path = Some content
          \<and> 1 \<le> lineNumber (ds ! i)
          \<and> lineNumber (ds ! i) \<le> int (length (split_lines content))"
    for content
  proof -
    from that have "excerpt e (ds ! i)
        = '' - '' @ trim e (split_lines content ! nat (lineNumber (ds ! i) - 1))"
      using f p by (auto simp: excerpt_def sourceLine_def Let_def)
    with line show ?thesis by simp
  qed
  from f p loc fail ok
  show "\<exists>f path.
          fileName (ds ! i) = Name f \<and> normalizeFilePath e f = Inr path
          \<and> formatLocation e (ds ! i) = Inr (location e (ds ! i))
          \<and> (readFileSync e path = None
                \<or> (\<exists>content. readFileSync e path = Some content
                      \<and> (lineNumber (ds ! i) < 1
                          \<or> int (length (split_lines content)) < lineNumber (ds ! i))) \<longrightarrow>
              fst (printStacks e r logger) ! (length logger + 2 + i)
                = location e (ds ! i)
                    @ replicate (widest e ds - length (location e (ds ! i))) CHR '' '')
          \<and> (\<forall>content. readFileSync e path = Some content
                  \<and> 1 \<le> lineNumber (ds ! i)
                  \<and> lineNumber (ds ! i) \<le> int (length (split_lines content)) \<longrightarrow>
              fst (printStacks e r logger) ! (length logger + 2 + i)
                = location e (ds ! i)
                    @ replicate (widest e ds - length (location e (ds ! i))) CHR '' ''
                    @ '' - '' @ trim e (split_lines content ! nat (lineNumber (ds ! i) - 1)))"
    by blast
qed

theorem source_read_failure_is_swallowed_witness:
  "renderable scenario_env scenario_record
   \<and> scenario_displayed = filter shown (stacks scenario_record)
   \<and> length scenario_displayed = 3
   \<and> map fileName scenario_displayed
       = [Name ''/app/server.js'', Name ''file:///usr/lib/x.js'', Name ''/app/server.js'']
   \<and> map lineNumber scenario_displayed = [10, 100, 2]
   \<and> normalizeFilePath scenario_env ''/app/server.js'' = Inr ''/app/server.js''
   \<and> normalizeFilePath scenario_env ''file:///usr/lib/x.js'' = Inr ''/usr/lib/x.js''
   \<and> readFileSync scenario_env ''/app/server.js''
        = Some (''// server'' @ [CR, LF] @ ''  net.createServer()  '' @ [LF])
   \<and> int (length (split_lines (''// server'' @ [CR, LF] @ ''  net.createServer()  '' @ [LF]))) = 3
   \<and> readFileSync scenario_env ''/usr/lib/x.js'' = None
   \<and> printStacks scenario_env scenario_record [''earlier'']
       = ([''earlier'', '''', ''# FSREQCALLBACK'',
           ''server.js:10     '',
           ''/usr/lib/x.js:100'',
           ''server.js:2       - net.createServer()''], None)
   \<and> snd (printStacks scenario_env scenario_record [''earlier'']) = None
   \<and> fst (printStacks scenario_env scenario_record [''earlier'']) ! (length [''earlier''] + 2 + 1)
       = location scenario_env (scenario_displayed ! 1)
           @ replicate (widest scenario_env scenario_displayed
               - length (location scenario_env (scenario_displayed ! 1))) CHR '' ''
   \<and> \<not> renderable scenario_env eval_record
   \<and> printStacks scenario_env eval_record [''earlier''] = ([''earlier''], Some TypeError)"
proof -
  have 1: "renderable scenario_env scenario_record" by (rule scenario_record_renderable)
  have 2: "scenario_displayed = filter shown (stacks scenario_record)"
    by (simp add: scenario_record_displayed)
  have 3: "length scenario_displayed = 3" by (simp add: scenario_displayed_def)
  have 4: "map fileName scenario_displayed
       = [Name ''/app/server.js'', Name ''file:///usr/lib/x.js'', Name ''/app/server.js'']"
    "map lineNumber scenario_displayed = [10, 100, 2]"
    by (simp_all add: scenario_displayed_def)
  have 5: "normalizeFilePath scenario_env ''/app/server.js'' = Inr ''/app/server.js''"
    "normalizeFilePath scenario_env ''file:///usr/lib/x.js'' = Inr ''/usr/lib/x.js''"
    "readFileSync scenario_env ''/app/server.js''
        = Some (''// server'' @ [CR, LF] @ ''  net.createServer()  '' @ [LF])"
    "readFileSync scenario_env ''/usr/lib/x.js'' = None"
    by (simp_all add: normalizeFilePath_def startsWith_def scenario_env_def)
  have 6: "int (length (split_lines (''// server'' @ [CR, LF] @ ''  net.createServer()  '' @ [LF]))) = 3"
    by (simp add: LF_def CR_def)
  have 7: "printStacks scenario_env scenario_record [''earlier'']
       = ([''earlier'', '''', ''# FSREQCALLBACK'',
           ''server.js:10     '',
           ''/usr/lib/x.js:100'',
           ''server.js:2       - net.createServer()''], None)"
    by (simp add: render_simps scenario_record_def replicate_5_6)
  have 8: "\<not> renderable scenario_env eval_record"
    by (simp add: renderable_def eval_record_def)
  have 9: "printStacks scenario_env eval_record [''earlier''] = ([''earlier''], Some TypeError)"
    by (simp add: printStacks_def displayed_def eval_record_def)
  note t = source_read_failure_is_swallowed
    [where ds = scenario_displayed and r = scenario_record and i = 1
        and e = scenario_env and logger = "[''earlier'']"]
  from t [THEN conjunct1] 1
  have 10: "snd (printStacks scenario_env scenario_record [''earlier'']) = None" by blast
  have i: "(1::nat) < length scenario_displayed" using 3 by simp
  from t [THEN conjunct2, THEN conjunct2] 1 2 i
  obtain f path where f: "fileName (scenario_displayed ! 1) = Name f"
    and p: "normalizeFilePath scenario_env f = Inr path"
    and imp: "readFileSync scenario_env path = None
                \<or> (\<exists>content. readFileSync scenario_env path = Some content
                      \<and> (lineNumber (scenario_displayed ! 1) < 1
                          \<or> int (length (split_lines content)) < lineNumber (scenario_displayed ! 1))) \<longrightarrow>
              fst (printStacks scenario_env scenario_record [''earlier'']) ! (length [''earlier''] + 2 + 1)
                = location scenario_env (scenario_displayed ! 1)
                    @ replicate (widest scenario_env scenario_displayed
                        - length (location scenario_env (scenario_displayed ! 1))) CHR '' ''"
    by blast
  from f have "f = ''file:///usr/lib/x.js''" by (simp add: scenario_displayed_def)
  with p 5(2) have "path = ''/usr/lib/x.js''" by simp
  with 5(4) imp
  have 11: "fst (printStacks scenario_env scenario_record [''earlier'']) ! (length [''earlier''] + 2 + 1)
       = location scenario_env (scenario_displayed ! 1)
           @ replicate (widest scenario_env scenario_displayed
               - length (location scenario_env (scenario_displayed ! 1))) CHR '' ''"
    by blast
  show ?thesis
    using 1 2 3 4 5(1,2,3) 6 5(4) 7 10 11 8 9 by (intro conjI) assumption+
qed

text \<open>
  Claim C7.  In the block of a record that is rendered, the line of the \<open>i\<close>-th displayed
  frame is the frame's formatted location, then spaces, then a suffix that is empty or
  starts with the separator \<open> - \<close>; location and spaces together have the length of the
  longest formatted location among the record's displayed frames, the same for every
  frame.  On any other record \<open>printStacks\<close> raises before the first frame line, so that
  no formatted location is written at all.
\<close>

theorem padded_locations_have_equal_length:
  "(renderable e r \<and> ds = filter shown (stacks r) \<and> i < length ds \<longrightarrow>
     (\<exists>k suffix.
        fst (printStacks e r logger) ! (length logger + 2 + i)
          = (location e (ds ! i) @ replicate k CHR '' '') @ suffix
        \<and> (suffix = [] \<or> (\<exists>line. suffix = '' - '' @ line))
        \<and> formatLocation e (ds ! i) = Inr (location e (ds ! i))
        \<and> length (location e (ds ! i) @ replicate k CHR '' '')
            = Max (set (map (\<lambda>stack. length (location e stack)) ds))))
   \<and> (\<not> renderable e r \<longrightarrow>
        snd (printStacks e r logger) \<noteq> None
        \<and> length (fst (printStacks e r logger)) \<le> length logger + 2)"
proof (intro conjI impI)
  assume a: "renderable e r \<and> ds = filter shown (stacks r) \<and> i < length ds"
  then have r: "renderable e r" and ds: "ds = filter shown (stacks r)" and i: "i < length ds"
    by blast+
  let ?k = "widest e ds - length (location e (ds ! i))"
  have mem: "ds ! i \<in> set ds" using i by simp
  then have le: "length (location e (ds ! i)) \<le> widest e ds" by (rule location_le_widest)
  from mem have "ds ! i \<in> set (filter shown (stacks r))"
    by (simp only: ds [symmetric])
  then have loc: "formatLocation e (ds ! i) = Inr (location e (ds ! i))"
    by (rule renderable_located [OF r])
  have 1: "fst (printStacks e r logger) ! (length logger + 2 + i)
        = (location e (ds ! i) @ replicate ?k CHR '' '') @ excerpt e (ds ! i)"
    using block_line [OF r ds i, of logger] by (simp add: padded_def)
  have 2: "excerpt e (ds ! i) = [] \<or> (\<exists>line. excerpt e (ds ! i) = '' - '' @ line)"
    by (cases "sourceLine e (ds ! i)") (simp_all add: excerpt_def)
  have 3: "length (location e (ds ! i) @ replicate ?k CHR '' '')
          = Max (set (map (\<lambda>stack. length (location e stack)) ds))"
    using le by (simp add: widest_def)
  from 1 2 3 loc show "\<exists>k suffix.
        fst (printStacks e r logger) ! (length logger + 2 + i)
          = (location e (ds ! i) @ replicate k CHR '' '') @ suffix
        \<and> (suffix = [] \<or> (\<exists>line. suffix = '' - '' @ line))
        \<and> formatLocation e (ds ! i) = Inr (location e (ds ! i))
        \<and> length (location e (ds ! i) @ replicate k CHR '' '')
            = Max (set (map (\<lambda>stack. length (location e stack)) ds))"
    by blast
next
  assume n: "\<not> renderable e r"
  from printStacks_raises [OF n, of logger]
  show "snd (printStacks e r logger) \<noteq> None" by auto
  from printStacks_raises [OF n, of logger]
  show "length (fst (printStacks e r logger)) \<le> length logger + 2" by auto
qed

theorem padded_locations_have_equal_length_witness:
  "renderable scenario_env scenario_record
   \<and> scenario_displayed = filter shown (stacks scenario_record)
   \<and> length scenario_displayed = 3
   \<and> map (location scenario_env) scenario_displayed
       = [''server.js:10'', ''/usr/lib/x.js:100'', ''server.js:2'']
   \<and> Max (set (map (\<lambda>stack. length (location scenario_env stack)) scenario_displayed)) = 17
   \<and> map (take 17) (drop 2 (fst (printStacks scenario_env scenario_record [])))
       = [''server.js:10     '', ''/usr/lib/x.js:100'', ''server.js:2      '']
   \<and> (\<exists>k suffix.
        fst (printStacks scenario_env scenario_record []) ! (length ([] :: string list) + 2 + 2)
          = (location scenario_env (scenario_displayed ! 2) @ replicate k CHR '' '') @ suffix
        \<and> (suffix = [] \<or> (\<exists>line. suffix = '' - '' @ line))
        \<and> formatLocation scenario_env (scenario_displayed ! 2)
            = Inr (location scenario_env (scenario_displayed ! 2))
        \<and> length (location scenario_env (scenario_displayed ! 2) @ replicate k CHR '' '')
            = Max (set (map (\<lambda>stack. length (location scenario_env stack)) scenario_displayed)))
   \<and> \<not> renderable scenario_env eval_record
   \<and> snd (printStacks scenario_env eval_record []) \<noteq> None
   \<and> length (fst (printStacks scenario_env eval_record [])) \<le> length ([] :: string list) + 2"
proof -
  have 0: "renderable scenario_env scenario_record" by (rule scenario_record_renderable)
  have 1: "scenario_displayed = filter shown (stacks scenario_record)"
    by (simp add: scenario_record_displayed)
  have 2: "length scenario_displayed = 3" by (simp add: scenario_displayed_def)
  have 3: "map (location scenario_env) scenario_displayed
       = [''server.js:10'', ''/usr/lib/x.js:100'', ''server.js:2'']"
    by (simp add: location_def render_simps scenario_displayed_def)
  have 4: "Max (set (map (\<lambda>stack. length (location scenario_env stack)) scenario_displayed)) = 17"
    using 3 by (simp add: scenario_displayed_def)
  have 5: "map (take 17) (drop 2 (fst (printStacks scenario_env scenario_record [])))
       = [''server.js:10     '', ''/usr/lib/x.js:100'', ''server.js:2      '']"
    by (simp add: scenario_record_lines)
  have 6: "(2::nat) < length scenario_displayed" using 2 by simp
  have 8: "\<not> renderable scenario_env eval_record"
    by (simp add: renderable_def eval_record_def)
  from 0 1 6 have h: "renderable scenario_env scenario_record
      \<and> scenario_displayed = filter shown (stacks scenario_record)
      \<and> 2 < length scenario_displayed"
    by (intro conjI)
  note 7 = padded_locations_have_equal_length
    [where e = scenario_env and r = scenario_record and ds = scenario_displayed and i = 2
       and logger = "[]", THEN conjunct1, THEN mp, OF h]
  note t = padded_locations_have_equal_length
    [where e = scenario_env and r = eval_record and logger = "[]", THEN conjunct2, THEN mp, OF 8]
  note 9 = t [THEN conjunct1] and 10 = t [THEN conjunct2]
  show ?thesis using 0 1 2 3 4 5 7 8 9 10 by (intro conjI) assumption+
qed

end
